theory Spec2Isabelle
  imports Complex_Main "HOL-Library.Log_Nat"
begin

section \<open>Data model of \<open>src/index.tsx\<close>\<close>

text \<open>
  The component \<open>BoutCoordinatorApp\<close> keeps its state in React \<open>useState\<close> cells and
  reacts to one event at a time (a user action, a change notification, a presence sync).
  Each handler is embedded as a function from the state of the render in which it runs
  to the list of effects it issues and the state after its \<open>set...\<close> calls.

  JavaScript numbers that hold counts are embedded as \<open>int\<close> (the values the handlers
  produce from integers by \<open>+\<close> and \<open>Math.max\<close> are integers again, exact below \<open>2^53\<close>).
  The type \<open>Station\<close> is a union of string literals that TypeScript erases, and the source
  casts \<open>operatorName\<close> to it unchecked, so a station is a \<open>string\<close>.
\<close>

record Message =
  msg_id :: int
  msg_time :: string
  msg_station :: string
  msg_text :: string

text \<open>The object literal \<open>newMessage\<close> of \<open>handleSendMessage\<close>: a message without an id.\<close>

record NewMessage =
  new_time :: string
  new_station :: string
  new_text :: string

record UserPresence =
  presence_ref :: string
  device_id :: string
  role :: string
  online_at :: string

text \<open>The argument of \<open>channel.track\<close>: a presence record before the server adds its ref.\<close>

record TrackPayload =
  track_device_id :: string
  track_role :: string
  track_online_at :: string

text \<open>\<open>createClient(url, key)\<close> and \<open>client.channel('public:room', ...)\<close> as plain values.\<close>

datatype SupabaseClient = Client string string

datatype RealtimeChannel = Channel string string

text \<open>
  The row of table \<open>event_state\<close> as a notification or a fetch delivers it. The two WiFi
  columns are \<open>None\<close> where the JavaScript value is \<open>undefined\<close>.
\<close>

record EventStateRow =
  door_count :: int
  row_capacity :: int
  wifi_ssid :: "string option"
  wifi_pass :: "string option"

text \<open>Everything a handler does beyond setting state.\<close>

datatype effect =
    UpdateDoorCount int
  | UpdateCapacity int
  | UpdateWifi string string
  | InsertMessages "NewMessage list"
  | DeleteMessagesNeqId int
  | RemoveAllChannels
  | LocalStorageSetItem string string
  | LocalStorageRemoveItem string
  | Track TrackPayload

record app_state =
  deviceId :: string
  operatorName :: string
  doorCount :: int
  capacity :: int
  messages :: "Message list"
  inputText :: string
  selectedStation :: "string option"
  supabaseClient :: "SupabaseClient option"
  channel :: "RealtimeChannel option"
  configUrl :: string
  configKey :: string
  isConnected :: bool
  showNetworkModal :: bool
  connectionError :: string
  wifiSSID :: string
  wifiPass :: string
  showWifiQr :: bool
  qrDataUrl :: string
  otherCoordinatorOnline :: bool
  showResetView :: bool
  resetInputText :: string

text \<open>The initial values of the \<open>useState\<close> calls, for the device id \<open>dev\<close>.\<close>

definition initialState :: "string \<Rightarrow> app_state" where
  "initialState dev =
     \<lparr>deviceId = dev, operatorName = [], doorCount = 0, capacity = 300, messages = [],
      inputText = [], selectedStation = None, supabaseClient = None, channel = None,
      configUrl = [], configKey = [], isConnected = False, showNetworkModal = False,
      connectionError = [], wifiSSID = [], wifiPass = [], showWifiQr = False,
      qrDataUrl = [], otherCoordinatorOnline = False, showResetView = False,
      resetInputText = []\<rparr>"

section \<open>Change-notification handlers of \<open>connectToSupabase\<close>\<close>

text \<open>
  \<open>if (stateData) { setDoorCount(...); setCapacity(...); if (stateData.wifi_ssid) ... }\<close>:
  the initial fetch. A missing row is \<open>None\<close>; an empty string is falsy, as is \<open>undefined\<close>.
\<close>

definition applyInitialFetch :: "EventStateRow option \<Rightarrow> app_state \<Rightarrow> app_state" where
  "applyInitialFetch stateData s =
     (case stateData of
        None \<Rightarrow> s
      | Some r \<Rightarrow>
          (let s1 = s\<lparr>doorCount := door_count r\<rparr>;
               s2 = s1\<lparr>capacity := row_capacity r\<rparr>;
               s3 = (case wifi_ssid r of
                       None \<Rightarrow> s2
                     | Some v \<Rightarrow> if v \<noteq> [] then s2\<lparr>wifiSSID := v\<rparr> else s2)
           in case wifi_pass r of
                None \<Rightarrow> s3
              | Some v \<Rightarrow> if v \<noteq> [] then s3\<lparr>wifiPass := v\<rparr> else s3))"

text \<open>
  \<open>if (msgData) setMessages(msgData.reverse())\<close>: the response of the query for the newest
  50 messages, newest first, is reversed. An empty array is truthy.
\<close>

definition applyMessageFetch :: "Message list option \<Rightarrow> app_state \<Rightarrow> app_state" where
  "applyMessageFetch msgData s =
     (case msgData of None \<Rightarrow> s | Some rows \<Rightarrow> s\<lparr>messages := rev rows\<rparr>)"

text \<open>
  The backend query \<open>.order('created_at', {ascending: false}).limit(50)\<close> over a table held
  oldest first.
\<close>

definition fetchRecentMessages :: "Message list \<Rightarrow> Message list" where
  "fetchRecentMessages table = take 50 (rev table)"

text \<open>The handler of \<open>UPDATE\<close> on \<open>event_state\<close>, with \<open>newState = payload.new\<close>.\<close>

definition onEventStateUpdate :: "EventStateRow \<Rightarrow> app_state \<Rightarrow> app_state" where
  "onEventStateUpdate newState s =
     (let s1 = s\<lparr>doorCount := door_count newState\<rparr>;
          s2 = s1\<lparr>capacity := row_capacity newState\<rparr>;
          s3 = (case wifi_ssid newState of None \<Rightarrow> s2 | Some v \<Rightarrow> s2\<lparr>wifiSSID := v\<rparr>)
      in case wifi_pass newState of None \<Rightarrow> s3 | Some v \<Rightarrow> s3\<lparr>wifiPass := v\<rparr>)"

text \<open>The handler of \<open>INSERT\<close> on \<open>messages\<close>: \<open>setMessages(prev => [...prev, newMsg])\<close>.\<close>

definition onMessageInsert :: "Message \<Rightarrow> app_state \<Rightarrow> app_state" where
  "onMessageInsert newMsg s = s\<lparr>messages := messages s @ [newMsg]\<rparr>"

section \<open>Actions\<close>

text \<open>The effects guarded by \<open>if (supabaseClient)\<close>.\<close>

definition whenClient :: "app_state \<Rightarrow> effect list \<Rightarrow> effect list" where
  "whenClient s es = (case supabaseClient s of None \<Rightarrow> [] | Some c \<Rightarrow> es)"

text \<open>
  \<open>handleDoorChange\<close>. The source adds two doubles; the sum below is the integer sum,
  which is what the double addition gives while the operands and the sum are at most
  \<open>2^53\<close> in magnitude (\<open>jsPlus_of_int\<close> below). Beyond that range the double sum is
  rounded and the embedding no longer follows the code.
\<close>

definition handleDoorChange :: "int \<Rightarrow> app_state \<Rightarrow> effect list \<times> app_state" where
  "handleDoorChange delta s =
     (let newCount = max 0 (doorCount s + delta)
      in (whenClient s [UpdateDoorCount newCount], s\<lparr>doorCount := newCount\<rparr>))"

definition handleCapacityChange :: "int \<Rightarrow> app_state \<Rightarrow> effect list \<times> app_state" where
  "handleCapacityChange newCap s =
     (whenClient s [UpdateCapacity newCap], s\<lparr>capacity := newCap\<rparr>)"

text \<open>
  The \<open>onChange\<close> of the capacity input:
  \<open>handleCapacityChange(Math.max(1, parseInt(e.target.value) || 0))\<close>. The argument is the
  result of \<open>parseInt\<close>: \<open>None\<close> for \<open>NaN\<close>, an integer otherwise; \<open>NaN\<close> and \<open>0\<close> are falsy.
\<close>

definition orZero :: "int option \<Rightarrow> int" where
  "orZero parsed = (case parsed of None \<Rightarrow> 0 | Some n \<Rightarrow> if n = 0 then 0 else n)"

definition capacityInputOnChange :: "int option \<Rightarrow> app_state \<Rightarrow> effect list \<times> app_state" where
  "capacityInputOnChange parsed s = handleCapacityChange (max 1 (orZero parsed)) s"

definition handleFullReset :: "app_state \<Rightarrow> effect list \<times> app_state" where
  "handleFullReset s =
     (if resetInputText s \<noteq> ''RESET'' then ([], s)
      else (whenClient s [UpdateDoorCount 0, DeleteMessagesNeqId (- 1)],
            s\<lparr>doorCount := 0, messages := [], showResetView := False,
              resetInputText := [], showNetworkModal := False\<rparr>))"

definition disconnect :: "app_state \<Rightarrow> effect list \<times> app_state" where
  "disconnect s =
     (whenClient s [RemoveAllChannels]
        @ [LocalStorageRemoveItem ''supabase_url'', LocalStorageRemoveItem ''supabase_key''],
      s\<lparr>supabaseClient := None, channel := None, isConnected := False,
        messages := [], doorCount := 0\<rparr>)"

section \<open>Values derived in every render\<close>

text \<open>\<open>const isOverCapacity = doorCount > capacity\<close>.\<close>

definition isOverCapacity :: "app_state \<Rightarrow> bool" where
  "isOverCapacity s = (doorCount s > capacity s)"

subsection \<open>Number arithmetic\<close>

text \<open>
  \<open>doorCount / (capacity || 1)\<close> and the product with 100 are operations on JavaScript
  Numbers: IEEE 754 binary64 with round to nearest, ties to even. A finite double is
  embedded as the real number it denotes, and an operation as the exact operation
  followed by \<open>round53\<close>, the rounding to 53 significant bits. Overflow and the subnormal
  range are outside the model (quotients and products of integers below \<open>2^53\<close> stay far
  from both), and an integer below \<open>2^53\<close> is a double as it is.

  \<open>exponent x\<close> is the \<open>e\<close> with \<open>2^e \<le> |x| < 2^(e+1)\<close>, read off the bit length of the
  integer part of \<open>|x|\<close>, or of its reciprocal when \<open>|x| < 1\<close>.
\<close>

definition exponent :: "real \<Rightarrow> int" where
  "exponent x =
     (if 1 \<le> \<bar>x\<bar> then bitlen \<lfloor>\<bar>x\<bar>\<rfloor> - 1 else - bitlen (\<lceil>1 / \<bar>x\<bar>\<rceil> - 1))"

definition roundTiesToEven :: "real \<Rightarrow> int" where
  "roundTiesToEven q =
     (let n = \<lfloor>q\<rfloor>; r = q - of_int n
      in if r < 1 / 2 then n else if 1 / 2 < r then n + 1 else if even n then n else n + 1)"

definition round53 :: "real \<Rightarrow> real" where
  "round53 x =
     (if x = 0 then 0
      else (let ulp = 2 powi (exponent x - 52)
            in of_int (roundTiesToEven (x / ulp)) * ulp))"

text \<open>
  \<open>x / y\<close> and \<open>x * y\<close>. A division by zero gives an infinity or \<open>NaN\<close>, no finite double:
  \<open>None\<close>.
\<close>

definition jsDivide :: "real \<Rightarrow> real \<Rightarrow> real option" where
  "jsDivide x y = (if y = 0 then None else Some (round53 (x / y)))"

definition jsTimes :: "real \<Rightarrow> real \<Rightarrow> real" where
  "jsTimes x y = round53 (x * y)"

text \<open>\<open>x + y\<close>, the addition of \<open>handleDoorChange\<close> as the double operation.\<close>

definition jsPlus :: "real \<Rightarrow> real \<Rightarrow> real" where
  "jsPlus x y = round53 (x + y)"

text \<open>\<open>Math.round\<close>: the nearest integer, a tie going up.\<close>

definition mathRound :: "real \<Rightarrow> int" where
  "mathRound x = \<lfloor>x + 1 / 2\<rfloor>"

text \<open>\<open>capacity || 1\<close>: \<open>0\<close> is the one falsy integer.\<close>

definition orOne :: "int \<Rightarrow> int" where
  "orOne n = (if n = 0 then 1 else n)"

text \<open>
  \<open>const occupancy = Math.min(100, Math.round((doorCount / (capacity || 1)) * 100))\<close>.
\<close>

definition occupancy :: "app_state \<Rightarrow> int option" where
  "occupancy s =
     (case jsDivide (of_int (doorCount s)) (of_int (orOne (capacity s))) of
        None \<Rightarrow> None
      | Some q \<Rightarrow> Some (min 100 (mathRound (jsTimes q 100))))"

text \<open>
  The formula of the specification, in exact arithmetic:
  \<open>min(100, round(100 * doorCount / max(1, capacity)))\<close>, and the inputs at which the
  quotient lies exactly halfway between two integers.
\<close>

definition occupancyExact :: "int \<Rightarrow> int \<Rightarrow> int" where
  "occupancyExact dc cap = min 100 \<lfloor>100 * real_of_int dc / real_of_int (max 1 cap) + 1 / 2\<rfloor>"

definition halfway :: "int \<Rightarrow> int \<Rightarrow> bool" where
  "halfway dc cap =
     (let v = 100 * real_of_int dc / real_of_int (max 1 cap)
      in real_of_int \<lfloor>v + 1 / 2\<rfloor> = v + 1 / 2)"


section \<open>Runs of door clicks\<close>

text \<open>A run of door clicks with nothing else in between: each click sees the state the
  previous one left.\<close>

fun doorChanges :: "int list \<Rightarrow> app_state \<Rightarrow> app_state" where
  "doorChanges [] s = s"
| "doorChanges (delta # deltas) s = doorChanges deltas (snd (handleDoorChange delta s))"


section \<open>Roles and presence\<close>

definition handleClaimBC :: "app_state \<Rightarrow> app_state" where
  "handleClaimBC s = s\<lparr>operatorName := ''Bout Coordinator'', selectedStation := None\<rparr>"

text \<open>\<open>handleRoleSelect\<close>, with \<open>role = e.target.value\<close>.\<close>

definition handleRoleSelect :: "string \<Rightarrow> app_state \<Rightarrow> app_state" where
  "handleRoleSelect r s =
     (if r = [] then s
      else if r = ''COORDINATOR'' then handleClaimBC s
      else s\<lparr>operatorName := r, selectedStation := None\<rparr>)"

definition handleRelease :: "app_state \<Rightarrow> app_state" where
  "handleRelease s = s\<lparr>operatorName := [], selectedStation := None\<rparr>"

text \<open>
  The effect that runs after \<open>operatorName\<close>, \<open>channel\<close> or \<open>deviceId\<close> changed: it persists
  the role and announces it on the channel. \<open>now\<close> is \<open>new Date().toISOString()\<close>.
\<close>

definition rolePresenceEffect :: "string \<Rightarrow> app_state \<Rightarrow> effect list" where
  "rolePresenceEffect now s =
     (if operatorName s \<noteq> [] then [LocalStorageSetItem ''derby_role'' (operatorName s)]
      else [LocalStorageRemoveItem ''derby_role''])
     @ (case channel s of
          None \<Rightarrow> []
        | Some c \<Rightarrow> [Track \<lparr>track_device_id = deviceId s, track_role = operatorName s,
                             track_online_at = now\<rparr>])"

text \<open>The record the presence channel holds for a tracked payload; the server adds the ref.\<close>

definition presenceOf :: "string \<Rightarrow> TrackPayload \<Rightarrow> UserPresence" where
  "presenceOf ref p =
     \<lparr>presence_ref = ref, device_id = track_device_id p, role = track_role p,
      online_at = track_online_at p\<rparr>"

text \<open>
  The handler of presence \<open>sync\<close>. \<open>newChannel.presenceState()\<close> is an object from presence
  key to an array of records, here an association list; the two nested \<open>forEach\<close> loops
  assign \<open>bcFound = true\<close> at every record that passes the test.
\<close>

definition bcFound :: "string \<Rightarrow> (string \<times> UserPresence list) list \<Rightarrow> bool" where
  "bcFound self state =
     foldl (\<lambda>found presences.
              foldl (\<lambda>f p. if role p = ''COORDINATOR'' \<and> device_id p \<noteq> self then True else f)
                found presences)
       False (map snd state)"

definition onPresenceSync :: "(string \<times> UserPresence list) list \<Rightarrow> app_state \<Rightarrow> app_state" where
  "onPresenceSync state s = s\<lparr>otherCoordinatorOnline := bcFound (deviceId s) state\<rparr>"

section \<open>Sending a message\<close>

text \<open>
  \<open>String.prototype.trim\<close> on the code units below 256: tab, line feed, vertical tab, form
  feed, carriage return, space and no-break space are white space.
\<close>

definition isWhiteSpace :: "char \<Rightarrow> bool" where
  "isWhiteSpace c = (of_char c \<in> {9, 10, 11, 12, 13, 32, 160 :: nat})"

definition trim :: "string \<Rightarrow> string" where
  "trim str = rev (dropWhile isWhiteSpace (rev (dropWhile isWhiteSpace str)))"

text \<open>\<open>Number.prototype.toString\<close> on a natural number, and \<open>padStart(2, '0')\<close>.\<close>

definition digitChar :: "nat \<Rightarrow> char" where
  "digitChar d = ''0123456789'' ! d"

fun toString :: "nat \<Rightarrow> string" where
  "toString n = (if n < 10 then [digitChar n] else toString (n div 10) @ [digitChar (n mod 10)])"

declare toString.simps [simp del]

definition padStart2 :: "string \<Rightarrow> string" where
  "padStart2 str = replicate (2 - length str) CHR ''0'' @ str"

text \<open>
  \<open>handleSendMessage\<close>; \<open>hours\<close> and \<open>minutes\<close> are \<open>now.getHours()\<close> and
  \<open>now.getMinutes()\<close>. \<open>0\<close> is falsy in \<open>hours % 12 || 12\<close>; \<open>null\<close> and the empty
  string are falsy in \<open>selectedStation || 'COORDINATOR'\<close>.
\<close>

definition timeStr :: "nat \<Rightarrow> nat \<Rightarrow> string" where
  "timeStr hours minutes =
     (let ampm = (if hours \<ge> 12 then ''PM'' else ''AM'');
          hour12 = (if hours mod 12 = 0 then 12 else hours mod 12)
      in toString hour12 @ '':'' @ padStart2 (toString minutes) @ '' '' @ ampm)"

definition sender :: "app_state \<Rightarrow> string" where
  "sender s =
     (if operatorName s = ''Bout Coordinator''
      then (case selectedStation s of
              None \<Rightarrow> ''COORDINATOR''
            | Some st \<Rightarrow> if st = [] then ''COORDINATOR'' else st)
      else operatorName s)"

definition handleSendMessage :: "nat \<Rightarrow> nat \<Rightarrow> app_state \<Rightarrow> effect list \<times> app_state" where
  "handleSendMessage hours minutes s =
     (if trim (inputText s) = [] then ([], s)
      else
        (let newMessage = \<lparr>new_time = timeStr hours minutes, new_station = sender s,
                            new_text = trim (inputText s)\<rparr>
         in (whenClient s [InsertMessages [newMessage]], s\<lparr>inputText := []\<rparr>)))"

text \<open>The row the backend stores for an inserted message carries the fields sent and an
  id of its own; the \<open>INSERT\<close> notification delivers that row.\<close>

definition echoes :: "NewMessage \<Rightarrow> Message \<Rightarrow> bool" where
  "echoes d m = (msg_time m = new_time d \<and> msg_station m = new_station d \<and> msg_text m = new_text d)"

text \<open>A run of \<open>INSERT\<close> notifications.\<close>

fun messageInserts :: "Message list \<Rightarrow> app_state \<Rightarrow> app_state" where
  "messageInserts [] s = s"
| "messageInserts (m # ms) s = messageInserts ms (onMessageInsert m s)"

section \<open>The program as a run of events\<close>

text \<open>\<open>handleStationClick\<close>, with \<open>setSelectedStation(prev => prev === station ? null : station)\<close>.\<close>

definition handleStationClick :: "string \<Rightarrow> app_state \<Rightarrow> app_state" where
  "handleStationClick station s =
     (if operatorName s = ''Bout Coordinator''
      then s\<lparr>selectedStation := (if selectedStation s = Some station then None else Some station)\<rparr>
      else s)"

text \<open>
  The CONFIRM button, whose \<open>onClick\<close> is the one call of \<open>handleFullReset\<close>, is rendered
  inside \<open>showNetworkModal && (...)\<close>, in the \<open>isConnected\<close> branch and in the
  \<open>showResetView\<close> branch of the danger zone.
\<close>

definition resetButtonShown :: "app_state \<Rightarrow> bool" where
  "resetButtonShown s = (showNetworkModal s \<and> isConnected s \<and> showResetView s)"

text \<open>
  Everything that changes the state of the component: the effects that run on mount
  (\<open>LoadSavedRole\<close>, \<open>CredentialsFound\<close>, \<open>CredentialsMissing\<close>), the resolution of the QR
  promise, the stages of \<open>connectToSupabase\<close> (the rejected call, the two fetches, the
  \<open>SUBSCRIBED\<close> callback, the \<open>catch\<close>), the three notification handlers, and every
  handler the rendered elements call. The \<open>SUBSCRIBED\<close> callback makes its five \<open>set...\<close>
  calls without yielding, so no other handler runs between them.
\<close>

datatype event =
    LoadSavedRole string
  | CredentialsFound string string
  | CredentialsMissing
  | QrReady string
  | ConnectRejected
  | InitialFetch "EventStateRow option"
  | MessageFetch "Message list option"
  | Subscribed SupabaseClient RealtimeChannel
  | ConnectFailed string
  | EventStateUpdate EventStateRow
  | MessageInsert Message
  | PresenceSync "(string \<times> UserPresence list) list"
  | Disconnect
  | DoorChange int
  | CapacityInput "int option"
  | ConfirmReset
  | RoleSelect string
  | Release
  | StationClick string
  | ClearStation
  | SendMessage nat nat
  | WifiSave
  | SetShowWifiQr bool
  | SetShowNetworkModal bool
  | SetWifiSSID string
  | SetWifiPass string
  | ShowResetView
  | CancelReset
  | SetResetInputText string
  | SetConfigUrl string
  | SetConfigKey string
  | SetInputText string

text \<open>
  One event. An event is accepted in every state, also where the element that raises it
  is not rendered or is disabled, which only adds runs; the click on CONFIRM is the
  exception, it calls \<open>handleFullReset\<close> where the button is rendered and enabled
  (\<open>disabled={resetInputText !== 'RESET'}\<close>) and does nothing elsewhere.
\<close>

fun step :: "event \<Rightarrow> app_state \<Rightarrow> app_state" where
  "step (LoadSavedRole savedRole) s = (if savedRole \<noteq> [] then s\<lparr>operatorName := savedRole\<rparr> else s)"
| "step (CredentialsFound url key) s = s\<lparr>configUrl := url, configKey := key\<rparr>"
| "step CredentialsMissing s = s\<lparr>showNetworkModal := True\<rparr>"
| "step (QrReady url) s = s\<lparr>qrDataUrl := url\<rparr>"
| "step ConnectRejected s = s\<lparr>connectionError := ''Please enter both URL and API Key''\<rparr>"
| "step (InitialFetch stateData) s = applyInitialFetch stateData s"
| "step (MessageFetch msgData) s = applyMessageFetch msgData s"
| "step (Subscribed client newChannel) s =
     s\<lparr>isConnected := True, supabaseClient := Some client, channel := Some newChannel,
       showNetworkModal := False, connectionError := []\<rparr>"
| "step (ConnectFailed message) s =
     s\<lparr>connectionError :=
         (if message \<noteq> [] then message else ''Failed to connect. Check credentials.''),
       isConnected := False\<rparr>"
| "step (EventStateUpdate newState) s = onEventStateUpdate newState s"
| "step (MessageInsert newMsg) s = onMessageInsert newMsg s"
| "step (PresenceSync state) s = onPresenceSync state s"
| "step Disconnect s = snd (disconnect s)"
| "step (DoorChange delta) s = snd (handleDoorChange delta s)"
| "step (CapacityInput parsed) s = snd (capacityInputOnChange parsed s)"
| "step ConfirmReset s =
     (if resetButtonShown s \<and> resetInputText s = ''RESET'' then snd (handleFullReset s) else s)"
| "step (RoleSelect r) s = handleRoleSelect r s"
| "step Release s = handleRelease s"
| "step (StationClick station) s = handleStationClick station s"
| "step ClearStation s = s\<lparr>selectedStation := None\<rparr>"
| "step (SendMessage hours minutes) s = snd (handleSendMessage hours minutes s)"
| "step WifiSave s = s"
| "step (SetShowWifiQr b) s = s\<lparr>showWifiQr := b\<rparr>"
| "step (SetShowNetworkModal b) s = s\<lparr>showNetworkModal := b\<rparr>"
| "step (SetWifiSSID v) s = s\<lparr>wifiSSID := v\<rparr>"
| "step (SetWifiPass v) s = s\<lparr>wifiPass := v\<rparr>"
| "step ShowResetView s = s\<lparr>showResetView := True\<rparr>"
| "step CancelReset s = s\<lparr>showResetView := False, resetInputText := []\<rparr>"
| "step (SetResetInputText v) s = s\<lparr>resetInputText := v\<rparr>"
| "step (SetConfigUrl v) s = s\<lparr>configUrl := v\<rparr>"
| "step (SetConfigKey v) s = s\<lparr>configKey := v\<rparr>"
| "step (SetInputText v) s = s\<lparr>inputText := v\<rparr>"

text \<open>A run of events from a state, and the states of the component: the runs from
  \<open>initialState\<close>.\<close>

fun runEvents :: "event list \<Rightarrow> app_state \<Rightarrow> app_state" where
  "runEvents [] s = s"
| "runEvents (e # es) s = runEvents es (step e s)"

text \<open>The client is set wherever the component is connected.\<close>

definition clientWhenConnected :: "app_state \<Rightarrow> bool" where
  "clientWhenConnected s = (isConnected s \<longrightarrow> supabaseClient s \<noteq> None)"

section \<open>Double arithmetic\<close>

text \<open>
  \<open>exponent x\<close> brackets \<open>|x|\<close> between two consecutive powers of two, and it is the only
  integer that does.
\<close>

lemma exponent_lower:
  assumes "x \<noteq> 0"
  shows "2 powi (exponent x) \<le> \<bar>x\<bar>"
proof (cases "1 \<le> \<bar>x\<bar>")
  case True
  let ?n = "\<lfloor>\<bar>x\<bar>\<rfloor>"
  from True have n: "0 < ?n" by linarith
  from bitlen_bounds [OF n] have b: "2 ^ nat (bitlen ?n - 1) \<le> ?n" by blast
  from n have ge: "0 \<le> bitlen ?n - 1"
    using bitlen_eq_zero_iff [of ?n] bitlen_nonneg [of ?n] by linarith
  have "(2::real) powi (bitlen ?n - 1) = 2 ^ nat (bitlen ?n - 1)"
    using ge by (rule power_int_nonneg_exp)
  also have "\<dots> = of_int (2 ^ nat (bitlen ?n - 1))" by simp
  also have "\<dots> \<le> of_int ?n" using b by (simp only: of_int_le_iff)
  also have "\<dots> \<le> \<bar>x\<bar>" by (rule of_int_floor_le)
  finally show ?thesis using True by (simp add: exponent_def)
next
  case False
  let ?r = "1 / \<bar>x\<bar>"
  let ?c = "\<lceil>?r\<rceil>"
  let ?j = "bitlen (?c - 1)"
  from False assms have x: "0 < \<bar>x\<bar>" "\<bar>x\<bar> < 1" by auto
  then have r: "1 < ?r" by simp
  then have c: "0 < ?c - 1" by linarith
  from bitlen_bounds [OF c] have "?c - 1 < 2 ^ nat ?j" by blast
  then have "?c \<le> 2 ^ nat ?j" by linarith
  then have "(of_int ?c :: real) \<le> of_int (2 ^ nat ?j)" by (simp only: of_int_le_iff)
  moreover have "?r \<le> of_int ?c" by (rule le_of_int_ceiling)
  ultimately have "?r \<le> of_int (2 ^ nat ?j)" by (rule order_trans [rotated])
  then have "?r \<le> 2 ^ nat ?j" by simp
  then have "1 / 2 ^ nat ?j \<le> \<bar>x\<bar>"
    using x by (simp add: field_simps)
  moreover have "(2::real) powi (- ?j) = 1 / 2 ^ nat ?j"
    using bitlen_nonneg [of "?c - 1"] by (simp add: power_int_minus_divide power_int_nonneg_exp)
  ultimately show ?thesis using False by (simp add: exponent_def)
qed

lemma exponent_upper:
  assumes "x \<noteq> 0"
  shows "\<bar>x\<bar> < 2 powi (exponent x + 1)"
proof (cases "1 \<le> \<bar>x\<bar>")
  case True
  let ?n = "\<lfloor>\<bar>x\<bar>\<rfloor>"
  from True have n: "0 < ?n" by linarith
  from bitlen_bounds [OF n] have "?n < 2 ^ nat (bitlen ?n)" by blast
  then have "?n + 1 \<le> 2 ^ nat (bitlen ?n)" by linarith
  then have "(of_int (?n + 1) :: real) \<le> of_int (2 ^ nat (bitlen ?n))"
    by (simp only: of_int_le_iff)
  moreover have "\<bar>x\<bar> < of_int (?n + 1)" by linarith
  ultimately have "\<bar>x\<bar> < of_int (2 ^ nat (bitlen ?n))" by (rule less_le_trans [rotated])
  then have "\<bar>x\<bar> < 2 ^ nat (bitlen ?n)" by simp
  moreover have "(2::real) powi (bitlen ?n) = 2 ^ nat (bitlen ?n)"
    using bitlen_nonneg [of ?n] by (rule power_int_nonneg_exp)
  ultimately show ?thesis using True by (simp add: exponent_def)
next
  case False
  let ?r = "1 / \<bar>x\<bar>"
  let ?c = "\<lceil>?r\<rceil>"
  let ?j = "bitlen (?c - 1)"
  from False assms have x: "0 < \<bar>x\<bar>" "\<bar>x\<bar> < 1" by auto
  then have r: "1 < ?r" by simp
  then have c: "0 < ?c - 1" by linarith
  from c have j: "0 \<le> ?j - 1"
    using bitlen_eq_zero_iff [of "?c - 1"] bitlen_nonneg [of "?c - 1"] by linarith
  from bitlen_bounds [OF c] have "2 ^ nat (?j - 1) \<le> ?c - 1" by blast
  then have "(of_int (2 ^ nat (?j - 1)) :: real) \<le> of_int (?c - 1)"
    by (simp only: of_int_le_iff)
  moreover have "of_int (?c - 1) < ?r" by linarith
  ultimately have "of_int (2 ^ nat (?j - 1)) < ?r" by (rule le_less_trans)
  then have "2 ^ nat (?j - 1) < ?r" by simp
  then have "\<bar>x\<bar> < 1 / 2 ^ nat (?j - 1)"
    using x by (simp add: field_simps)
  moreover have "(2::real) powi (- ?j + 1) = 1 / 2 ^ nat (?j - 1)"
  proof -
    have "(2::real) powi (- ?j + 1) = 2 powi (- (?j - 1))" by simp
    also have "\<dots> = 1 / 2 powi (?j - 1)" by (rule power_int_minus_divide)
    also have "\<dots> = 1 / 2 ^ nat (?j - 1)" using j by (simp add: power_int_nonneg_exp)
    finally show ?thesis .
  qed
  ultimately show ?thesis using False by (simp add: exponent_def)
qed

lemma exponent_unique:
  assumes lo: "2 powi e \<le> \<bar>x\<bar>" and hi: "\<bar>x\<bar> < 2 powi (e + 1)"
  shows "exponent x = e"
proof -
  have nz: "x \<noteq> 0"
  proof
    assume "x = 0"
    with lo have "(2::real) powi e \<le> 0" by simp
    moreover have "(0::real) < 2 powi e" by simp
    ultimately show False by linarith
  qed
  have less: "a < b" if "(2::real) powi a < 2 powi b" for a b :: int
  proof (rule ccontr)
    assume "\<not> a < b"
    then have "(2::real) powi b \<le> 2 powi a"
      by (intro power_int_increasing) simp_all
    with that show False by simp
  qed
  from exponent_lower [OF nz] hi have "(2::real) powi (exponent x) < 2 powi (e + 1)" by simp
  then have 1: "exponent x < e + 1" by (rule less)
  from exponent_upper [OF nz] lo have "(2::real) powi e < 2 powi (exponent x + 1)" by simp
  then have 2: "e < exponent x + 1" by (rule less)
  from 1 2 show ?thesis by simp
qed

lemma roundTiesToEven_near: "\<bar>of_int (roundTiesToEven q) - q\<bar> \<le> 1 / 2"
proof -
  define n where "n = \<lfloor>q\<rfloor>"
  define r where "r = q - of_int n"
  have r: "0 \<le> r" "r < 1"
    unfolding r_def n_def by linarith+
  have q: "q = of_int n + r"
    by (simp add: r_def)
  have "roundTiesToEven q
          = (if r < 1 / 2 then n else if 1 / 2 < r then n + 1 else if even n then n else n + 1)"
    by (simp add: roundTiesToEven_def Let_def n_def r_def)
  then show ?thesis
    using r by (simp add: q abs_if)
qed

lemma round53_error: "\<bar>round53 x - x\<bar> \<le> \<bar>x\<bar> / 2 ^ 53"
proof (cases "x = 0")
  case True
  then show ?thesis by (simp add: round53_def)
next
  case False
  let ?u = "(2::real) powi (exponent x - 52)"
  let ?m = "roundTiesToEven (x / ?u)"
  have u: "0 < ?u" by simp
  have "round53 x - x = (of_int ?m - x / ?u) * ?u"
    using False u by (simp add: round53_def Let_def field_simps)
  then have "\<bar>round53 x - x\<bar> = \<bar>of_int ?m - x / ?u\<bar> * ?u"
    using u by (simp add: abs_mult)
  also have "\<dots> \<le> (1 / 2) * ?u"
    using roundTiesToEven_near [of "x / ?u"] u by (intro mult_right_mono) simp_all
  also have "\<dots> = 2 powi (exponent x) / 2 ^ 53"
  proof -
    have "?u = 2 powi (exponent x) / 2 powi 52"
      by (rule power_int_diff) simp
    then show ?thesis by simp
  qed
  also have "\<dots> \<le> \<bar>x\<bar> / 2 ^ 53"
    using exponent_lower [OF False] by (simp add: divide_right_mono)
  finally show ?thesis .
qed

text \<open>
  So \<open>round53 x\<close> is a double: an integer of 53 bits times the power of two that the
  exponent of \<open>x\<close> fixes, and that integer is the nearest to the scaled \<open>x\<close>.
\<close>

lemma round53_grid:
  assumes nz: "x \<noteq> 0"
  defines "u \<equiv> 2 powi (exponent x - 52)"
  shows "\<exists>m. round53 x = of_int m * u \<and> 2 ^ 52 \<le> \<bar>m\<bar> \<and> \<bar>m\<bar> \<le> 2 ^ 53
             \<and> \<bar>of_int m - x / u\<bar> \<le> 1 / 2"
proof -
  define q where "q = x / u"
  define m where "m = roundTiesToEven q"
  have u: "0 < u" by (simp add: u_def)
  have pe: "2 powi (exponent x) = 2 ^ 52 * u"
  proof -
    have "u = 2 powi (exponent x) / 2 powi 52"
      unfolding u_def by (rule power_int_diff) simp
    then show ?thesis by simp
  qed
  have pe1: "2 powi (exponent x + 1) = 2 ^ 53 * u"
  proof -
    have "(2::real) powi (exponent x + 1) = 2 powi (exponent x) * 2"
      by (rule power_int_add_1) simp
    then show ?thesis by (simp add: pe)
  qed
  have aq: "\<bar>q\<bar> * u = \<bar>x\<bar>"
    using u by (simp add: q_def abs_divide)
  have "2 ^ 52 * u \<le> \<bar>q\<bar> * u"
    using exponent_lower [OF nz] by (simp only: pe aq)
  then have lo: "2 ^ 52 \<le> \<bar>q\<bar>"
    using u by (simp only: mult_le_cancel_right_pos)
  have "\<bar>q\<bar> * u < 2 ^ 53 * u"
    using exponent_upper [OF nz] by (simp only: pe1 aq)
  then have hi: "\<bar>q\<bar> < 2 ^ 53"
    using u by (simp only: mult_less_cancel_right_pos)
  have near: "\<bar>of_int m - q\<bar> \<le> 1 / 2"
    unfolding m_def by (rule roundTiesToEven_near)
  have d1: "\<bar>q\<bar> - \<bar>real_of_int m\<bar> \<le> 1 / 2"
    using abs_triangle_ineq2 [of q "real_of_int m"] near by (simp add: abs_minus_commute)
  have d2: "\<bar>real_of_int m\<bar> - \<bar>q\<bar> \<le> 1 / 2"
    using abs_triangle_ineq2 [of "real_of_int m" q] near by simp
  from d1 lo have "real_of_int (2 ^ 52 - 1) < \<bar>real_of_int m\<bar>" by simp
  then have "real_of_int (2 ^ 52 - 1) < real_of_int \<bar>m\<bar>" by (simp only: of_int_abs)
  then have "2 ^ 52 - 1 < \<bar>m\<bar>" by (simp only: of_int_less_iff)
  then have m1: "2 ^ 52 \<le> \<bar>m\<bar>" by simp
  from d2 hi have "\<bar>real_of_int m\<bar> < real_of_int (2 ^ 53 + 1)" by simp
  then have "real_of_int \<bar>m\<bar> < real_of_int (2 ^ 53 + 1)" by (simp only: of_int_abs)
  then have "\<bar>m\<bar> < 2 ^ 53 + 1" by (simp only: of_int_less_iff)
  then have m2: "\<bar>m\<bar> \<le> 2 ^ 53" by simp
  have "round53 x = of_int m * u"
    using nz by (simp add: round53_def Let_def m_def q_def u_def)
  with m1 m2 near show ?thesis
    unfolding q_def by blast
qed

text \<open>
  An integer of magnitude at most \<open>2^53\<close> is a double, and so is the sum of two integers
  when it stays in that range: there the double addition is the integer addition.
\<close>

lemma roundTiesToEven_of_int: "roundTiesToEven (real_of_int k) = k"
  by (simp add: roundTiesToEven_def Let_def)

lemma round53_of_int:
  assumes bound: "\<bar>n\<bar> \<le> 2 ^ 53"
  shows "round53 (real_of_int n) = real_of_int n"
proof (cases "n = 0")
  case True
  then show ?thesis by (simp add: round53_def)
next
  case False
  let ?x = "real_of_int n"
  let ?e = "exponent ?x"
  from False have nz: "?x \<noteq> 0" by simp
  from False have "1 \<le> \<bar>n\<bar>" by simp
  then have "real_of_int 1 \<le> real_of_int \<bar>n\<bar>" by (simp only: of_int_le_iff)
  then have one: "1 \<le> \<bar>?x\<bar>" by simp
  from bound have "real_of_int \<bar>n\<bar> \<le> real_of_int (2 ^ 53)" by (simp only: of_int_le_iff)
  then have top: "\<bar>?x\<bar> \<le> 2 ^ 53" by simp
  have less: "a < b" if "(2::real) powi a < 2 powi b" for a b :: int
  proof (rule ccontr)
    assume "\<not> a < b"
    then have "(2::real) powi b \<le> 2 powi a"
      by (intro power_int_increasing) simp_all
    with that show False by simp
  qed
  have "(2::real) powi 0 < 2 powi (?e + 1)"
    using exponent_upper [OF nz] one by simp
  then have "0 < ?e + 1" by (rule less)
  then have e0: "0 \<le> ?e" by simp
  have "(2::real) powi ?e < 2 powi 54"
    using exponent_lower [OF nz] top by simp
  then have "?e < 54" by (rule less)
  then have e53: "?e \<le> 53" by simp
  show ?thesis
  proof (cases "?e = 53")
    case True
    with exponent_lower [OF nz] top have ax: "\<bar>?x\<bar> = 2 ^ 53" by simp
    have "?x / 2 = real_of_int (n div 2)"
    proof -
      from ax have "\<bar>n\<bar> = 2 ^ 53"
        by (metis of_int_abs of_int_eq_iff of_int_numeral of_int_power)
      then have "even n" by (metis even_abs_add_iff even_add even_numeral even_power zero_less_numeral)
      then show ?thesis by (simp add: real_of_int_div)
    qed
    then show ?thesis
      using nz True by (simp add: round53_def Let_def roundTiesToEven_of_int)
  next
    case False
    with e53 have le: "?e \<le> 52" by simp
    define j where "j = nat (52 - ?e)"
    have u: "(2::real) powi (?e - 52) = 1 / 2 ^ j"
    proof -
      have "(2::real) powi (?e - 52) = 2 powi (- int j)"
        using le by (simp add: j_def)
      also have "\<dots> = 1 / 2 ^ j"
        by (simp add: power_int_minus_divide)
      finally show ?thesis .
    qed
    have q: "?x / (1 / 2 ^ j) = real_of_int (n * 2 ^ j)" by simp
    have "round53 ?x = real_of_int (roundTiesToEven (?x / (1 / 2 ^ j))) * (1 / 2 ^ j)"
      using nz by (simp add: round53_def Let_def u)
    also have "\<dots> = real_of_int (n * 2 ^ j) * (1 / 2 ^ j)"
      by (simp only: q roundTiesToEven_of_int)
    also have "\<dots> = ?x" by simp
    finally show ?thesis .
  qed
qed

lemma jsPlus_of_int:
  "\<bar>a + b\<bar> \<le> 2 ^ 53 \<Longrightarrow> jsPlus (real_of_int a) (real_of_int b) = real_of_int (a + b)"
  using round53_of_int [of "a + b"] by (simp add: jsPlus_def)

section \<open>The door counter\<close>

lemma doorCount_handleDoorChange:
  "doorCount (snd (handleDoorChange delta s)) = max 0 (doorCount s + delta)"
  by (simp add: handleDoorChange_def Let_def)

lemma capacity_handleDoorChange:
  "capacity (snd (handleDoorChange delta s)) = capacity s"
  by (simp add: handleDoorChange_def Let_def)

lemma doorChanges_lower:
  "0 \<le> doorCount s \<Longrightarrow>
     max 0 (doorCount s + sum_list deltas) \<le> doorCount (doorChanges deltas s)"
proof (induction deltas arbitrary: s)
  case Nil
  then show ?case by simp
next
  case (Cons d ds)
  let ?t = "snd (handleDoorChange d s)"
  have t: "doorCount ?t = max 0 (doorCount s + d)"
    by (rule doorCount_handleDoorChange)
  then have "0 \<le> doorCount ?t" by simp
  from Cons.IH [OF this]
  have "max 0 (doorCount ?t + sum_list ds) \<le> doorCount (doorChanges ds ?t)" .
  moreover have "doorCount s + sum_list (d # ds) \<le> doorCount ?t + sum_list ds"
    using t by simp
  ultimately show ?case by simp
qed

lemma doorChanges_snoc:
  "doorChanges (deltas @ [delta]) s = snd (handleDoorChange delta (doorChanges deltas s))"
  by (induction deltas arbitrary: s) simp_all

lemma doorChanges_suffix_le:
  "0 \<le> doorCount s \<Longrightarrow> sum_list (drop n deltas) \<le> doorCount (doorChanges deltas s)"
proof (induction deltas arbitrary: s n)
  case Nil
  then show ?case by simp
next
  case (Cons d ds)
  let ?t = "snd (handleDoorChange d s)"
  have t: "doorCount ?t = max 0 (doorCount s + d)"
    by (rule doorCount_handleDoorChange)
  then have t0: "0 \<le> doorCount ?t" by simp
  show ?case
  proof (cases n)
    case 0
    have "max 0 (doorCount ?t + sum_list ds) \<le> doorCount (doorChanges ds ?t)"
      using t0 by (rule doorChanges_lower)
    then have "doorCount ?t + sum_list ds \<le> doorCount (doorChanges ds ?t)" by simp
    moreover have "d \<le> doorCount ?t" using t Cons.prems by simp
    ultimately have "d + sum_list ds \<le> doorCount (doorChanges ds ?t)" by linarith
    with 0 show ?thesis by simp
  next
    case (Suc m)
    with Cons.IH [OF t0, of m] show ?thesis by simp
  qed
qed

lemma doorChanges_attained:
  "doorCount (doorChanges deltas s) = doorCount s + sum_list deltas
   \<or> (\<exists>n\<le>length deltas. doorCount (doorChanges deltas s) = sum_list (drop n deltas))"
proof (induction deltas arbitrary: s)
  case Nil
  then show ?case by simp
next
  case (Cons d ds)
  let ?t = "snd (handleDoorChange d s)"
  have t: "doorCount ?t = max 0 (doorCount s + d)"
    by (rule doorCount_handleDoorChange)
  from Cons.IH [of ?t] show ?case
  proof
    assume run: "doorCount (doorChanges ds ?t) = doorCount ?t + sum_list ds"
    show ?thesis
    proof (cases "0 \<le> doorCount s + d")
      case True
      with run t show ?thesis by simp
    next
      case False
      with run t have "doorCount (doorChanges (d # ds) s) = sum_list (drop (Suc 0) (d # ds))"
        by simp
      moreover have "Suc 0 \<le> length (d # ds)" by simp
      ultimately show ?thesis by blast
    qed
  next
    assume "\<exists>n\<le>length ds. doorCount (doorChanges ds ?t) = sum_list (drop n ds)"
    then obtain n where n: "n \<le> length ds"
      and run: "doorCount (doorChanges ds ?t) = sum_list (drop n ds)" by blast
    from run have "doorCount (doorChanges (d # ds) s) = sum_list (drop (Suc n) (d # ds))"
      by simp
    moreover from n have "Suc n \<le> length (d # ds)" by simp
    ultimately show ?thesis by blast
  qed
qed

lemma doorChanges_upper:
  "0 \<le> doorCount s \<Longrightarrow>
     doorCount (doorChanges deltas s) \<le> doorCount s + sum_list (map abs deltas)"
proof (induction deltas arbitrary: s)
  case Nil
  then show ?case by simp
next
  case (Cons d ds)
  let ?t = "snd (handleDoorChange d s)"
  have t: "doorCount ?t = max 0 (doorCount s + d)"
    by (rule doorCount_handleDoorChange)
  then have "0 \<le> doorCount ?t" by simp
  from Cons.IH [OF this] t Cons.prems show ?case by simp
qed

lemma sum_abs_nonneg: "0 \<le> sum_list (map abs (xs :: int list))"
  by (induction xs) simp_all

lemma sum_abs_take: "sum_list (map abs (take n xs)) \<le> sum_list (map abs (xs :: int list))"
proof -
  have "sum_list (map abs xs) = sum_list (map abs (take n xs)) + sum_list (map abs (drop n xs))"
    by (metis append_take_drop_id map_append sum_list_append)
  with sum_abs_nonneg [of "drop n xs"] show ?thesis by simp
qed

lemma sum_drop_take: "sum_list (drop n xs) = sum_list xs - sum_list (take n (xs :: int list))"
proof -
  have "sum_list xs = sum_list (take n xs) + sum_list (drop n xs)"
    by (metis append_take_drop_id sum_list_append)
  then show ?thesis by simp
qed

text \<open>
  The run \<open>-1, +1\<close> from \<open>doorCount = 0\<close>: the first click is floored at 0, the second
  gives 1, while \<open>max(0, sum of deltas)\<close> is 0.
\<close>

theorem door_deltas_counterexample:
  "doorCount (initialState ''dev_a'') = 0
   \<and> doorCount (doorChanges [- 1, 1] (initialState ''dev_a'')) = 1
   \<and> doorCount (doorChanges [- 1, 1] (initialState ''dev_a'')) \<noteq> max 0 (sum_list [- 1, 1])"
  by (simp add: doorCount_handleDoorChange initialState_def)

text \<open>
  C2, as the code has it. Take a run of deltas from \<open>doorCount = 0\<close> with no notification
  in between, whose absolute values sum to less than \<open>2^53\<close>. Every click floors the
  counter at 0: the count after a delta is \<open>max(0, count before + delta)\<close>, and that sum
  is exact, the double addition being the integer addition there. The result is at least
  \<open>max(0, sum of deltas)\<close>, and it equals \<open>max(0, sum of deltas)\<close> exactly when no prefix
  of the run has a sum below \<open>min(0, sum of deltas)\<close>.
\<close>

theorem door_deltas_floored:
  assumes zero: "doorCount s = 0" and bound: "sum_list (map abs deltas) < 2 ^ 53"
  shows "(\<forall>n<length deltas.
            doorCount (doorChanges (take (Suc n) deltas) s)
              = max 0 (doorCount (doorChanges (take n deltas) s) + deltas ! n)
            \<and> jsPlus (real_of_int (doorCount (doorChanges (take n deltas) s)))
                 (real_of_int (deltas ! n))
              = real_of_int (doorCount (doorChanges (take n deltas) s) + deltas ! n))
         \<and> max 0 (sum_list deltas) \<le> doorCount (doorChanges deltas s)
         \<and> (doorCount (doorChanges deltas s) = max 0 (sum_list deltas))
             = (\<forall>n\<le>length deltas. min 0 (sum_list deltas) \<le> sum_list (take n deltas))"
proof (intro conjI allI impI)
  fix n assume n: "n < length deltas"
  let ?c = "doorCount (doorChanges (take n deltas) s)"
  have tk: "take (Suc n) deltas = take n deltas @ [deltas ! n]"
    using n by (rule take_Suc_conv_app_nth)
  show "doorCount (doorChanges (take (Suc n) deltas) s) = max 0 (?c + deltas ! n)"
    by (simp only: tk doorChanges_snoc doorCount_handleDoorChange)
  have c0: "0 \<le> ?c"
    using doorChanges_lower [of s "take n deltas"] zero by simp
  have "?c \<le> sum_list (map abs (take n deltas))"
    using doorChanges_upper [of s "take n deltas"] zero by simp
  then have "?c + \<bar>deltas ! n\<bar> \<le> sum_list (map abs (take (Suc n) deltas))"
    by (simp add: tk)
  also have "\<dots> \<le> sum_list (map abs deltas)" by (rule sum_abs_take)
  finally have "\<bar>?c + deltas ! n\<bar> \<le> 2 ^ 53"
    using bound c0 by linarith
  then show "jsPlus (real_of_int ?c) (real_of_int (deltas ! n)) = real_of_int (?c + deltas ! n)"
    by (rule jsPlus_of_int)
next
  show low: "max 0 (sum_list deltas) \<le> doorCount (doorChanges deltas s)"
    using doorChanges_lower [of s deltas] zero by simp
  show "(doorCount (doorChanges deltas s) = max 0 (sum_list deltas))
          = (\<forall>n\<le>length deltas. min 0 (sum_list deltas) \<le> sum_list (take n deltas))"
  proof
    assume eq: "doorCount (doorChanges deltas s) = max 0 (sum_list deltas)"
    show "\<forall>n\<le>length deltas. min 0 (sum_list deltas) \<le> sum_list (take n deltas)"
    proof (intro allI impI)
      fix n
      have "sum_list (drop n deltas) \<le> doorCount (doorChanges deltas s)"
        using zero by (intro doorChanges_suffix_le) simp
      with eq have "sum_list deltas - sum_list (take n deltas) \<le> max 0 (sum_list deltas)"
        by (simp only: sum_drop_take)
      then show "min 0 (sum_list deltas) \<le> sum_list (take n deltas)"
        by linarith
    qed
  next
    assume pre: "\<forall>n\<le>length deltas. min 0 (sum_list deltas) \<le> sum_list (take n deltas)"
    from doorChanges_attained [of deltas s]
    have "doorCount (doorChanges deltas s) \<le> max 0 (sum_list deltas)"
    proof
      assume "doorCount (doorChanges deltas s) = doorCount s + sum_list deltas"
      with zero show ?thesis by simp
    next
      assume "\<exists>n\<le>length deltas. doorCount (doorChanges deltas s) = sum_list (drop n deltas)"
      then obtain n where n: "n \<le> length deltas"
        and run: "doorCount (doorChanges deltas s) = sum_list (drop n deltas)" by blast
      from pre n have "min 0 (sum_list deltas) \<le> sum_list (take n deltas)" by blast
      moreover from run
      have "doorCount (doorChanges deltas s) = sum_list deltas - sum_list (take n deltas)"
        by (simp only: sum_drop_take)
      ultimately show ?thesis by linarith
    qed
    with low show "doorCount (doorChanges deltas s) = max 0 (sum_list deltas)" by (rule order_antisym [rotated])
  qed
qed

theorem door_deltas_floored_witness:
  "doorCount (doorChanges [- 1] (initialState ''dev_a'')) = 0
   \<and> doorCount (doorChanges [2, - 3] (initialState ''dev_a'')) = 0
   \<and> doorCount (doorChanges [2, - 3, 1] (initialState ''dev_a'')) \<noteq> max 0 (sum_list [2, - 3, 1])"
proof -
  let ?s = "initialState ''dev_a''"
  have zero: "doorCount ?s = 0"
    by (simp add: initialState_def)
  have b1: "sum_list (map abs [- 1 :: int]) < 2 ^ 53" by simp
  have b3: "sum_list (map abs [2, - 3, 1 :: int]) < 2 ^ 53" by simp
  have "\<forall>n\<le>length [- 1 :: int]. min 0 (sum_list [- 1 :: int]) \<le> sum_list (take n [- 1 :: int])"
  proof (intro allI impI)
    fix n :: nat assume "n \<le> length [- 1 :: int]"
    then have "n = 0 \<or> n = 1" by auto
    then show "min 0 (sum_list [- 1 :: int]) \<le> sum_list (take n [- 1 :: int])" by auto
  qed
  with door_deltas_floored [OF zero b1]
  have 1: "doorCount (doorChanges [- 1] ?s) = 0" by simp
  have "(1::nat) < length [2, - 3, 1 :: int]" by simp
  with door_deltas_floored [OF zero b3]
  have "doorCount (doorChanges (take (Suc 1) [2, - 3, 1]) ?s)
          = max 0 (doorCount (doorChanges (take 1 [2, - 3, 1]) ?s) + [2, - 3, 1] ! 1)"
    by blast
  then have 2: "doorCount (doorChanges [2, - 3] ?s) = 0"
    by (simp add: doorCount_handleDoorChange zero)
  have "\<not> (\<forall>n\<le>length [2, - 3, 1 :: int].
            min 0 (sum_list [2, - 3, 1 :: int]) \<le> sum_list (take n [2, - 3, 1 :: int]))"
  proof
    assume "\<forall>n\<le>length [2, - 3, 1 :: int].
            min 0 (sum_list [2, - 3, 1 :: int]) \<le> sum_list (take n [2, - 3, 1 :: int])"
    then have "2 \<le> length [2, - 3, 1 :: int]
                 \<longrightarrow> min 0 (sum_list [2, - 3, 1 :: int]) \<le> sum_list (take 2 [2, - 3, 1 :: int])"
      by (rule spec)
    then show False by (simp add: numeral_2_eq_2)
  qed
  with door_deltas_floored [OF zero b3]
  have 3: "doorCount (doorChanges [2, - 3, 1] ?s) \<noteq> max 0 (sum_list [2, - 3, 1])" by blast
  from 1 2 3 show ?thesis by blast
qed

text \<open>
  C6: the over-capacity flag is exactly \<open>doorCount > capacity\<close>, and \<open>handleDoorChange\<close>
  never looks at \<open>capacity\<close>: the new count is \<open>max(0, doorCount + delta)\<close> and the capacity
  stays. From 299/300 a \<open>+1\<close> gives 300 with the flag false, and another \<open>+1\<close> gives 301
  with the flag true.
\<close>

theorem no_clamp_to_capacity:
  "isOverCapacity s = (doorCount s > capacity s)
   \<and> doorCount (snd (handleDoorChange delta s)) = max 0 (doorCount s + delta)
   \<and> capacity (snd (handleDoorChange delta s)) = capacity s
   \<and> (let s0 = s\<lparr>doorCount := 299, capacity := 300\<rparr>;
           s1 = snd (handleDoorChange 1 s0);
           s2 = snd (handleDoorChange 1 s1)
       in doorCount s1 = 300 \<and> capacity s1 = 300 \<and> isOverCapacity s1 = False
          \<and> doorCount s2 = 301 \<and> capacity s2 = 300 \<and> isOverCapacity s2 = True)"
  by (simp add: isOverCapacity_def handleDoorChange_def Let_def)

section \<open>Change notifications\<close>

text \<open>
  C3: the handler of a snapshot-update notification is idempotent. Applying the same
  payload a second time leaves the whole state, and so \<open>doorCount\<close>, \<open>capacity\<close>,
  \<open>wifiSSID\<close> and \<open>wifiPass\<close>, as the first application left it.
\<close>

theorem snapshot_update_idempotent:
  "onEventStateUpdate newState (onEventStateUpdate newState s) = onEventStateUpdate newState s"
  by (simp add: onEventStateUpdate_def Let_def split: option.splits)

text \<open>
  C7: an \<open>INSERT\<close> notification appends the new message at the end of the log,
  whatever the log holds: the length grows by one, the last element is the new message
  and the elements before it are the old log. The initial fetch seeds the log with the
  newest 50 rows of the table (all of them when there are fewer), oldest first, so a log
  seeded from 50 rows has 51 entries after one notification.
\<close>

theorem insert_appends_at_end:
  "messages (onMessageInsert newMsg s) = messages s @ [newMsg]
   \<and> length (messages (onMessageInsert newMsg s)) = length (messages s) + 1
   \<and> last (messages (onMessageInsert newMsg s)) = newMsg
   \<and> take (length (messages s)) (messages (onMessageInsert newMsg s)) = messages s
   \<and> messages (applyMessageFetch (Some (fetchRecentMessages table)) s)
       = drop (length table - 50) table
   \<and> length (messages (applyMessageFetch (Some (fetchRecentMessages table)) s))
       = min 50 (length table)
   \<and> length (messages (onMessageInsert newMsg
                (applyMessageFetch (Some (fetchRecentMessages table)) s)))
       = min 50 (length table) + 1"
  by (simp add: onMessageInsert_def applyMessageFetch_def fetchRecentMessages_def
      take_rev min_def)

section \<open>Capacity\<close>

text \<open>
  A notification whose row has \<open>capacity = 0\<close> arrives at a device whose capacity is 300:
  the local capacity becomes 0.
\<close>

theorem remote_capacity_counterexample:
  "1 \<le> capacity (initialState ''dev_a'')
   \<and> \<not> 1 \<le> capacity (onEventStateUpdate
          \<lparr>door_count = 0, row_capacity = 0, wifi_ssid = None, wifi_pass = None\<rparr>
          (initialState ''dev_a''))"
  by (simp add: onEventStateUpdate_def initialState_def)

text \<open>
  C8, as the code has it: the capacity input clamps what it passes to
  \<open>handleCapacityChange\<close> to at least 1, for every result of \<open>parseInt\<close>. The
  snapshot-update handler and the initial fetch copy the capacity of the row they receive,
  so after a notification the local capacity is at least 1 exactly when the row's is.
\<close>

theorem capacity_write_paths:
  "1 \<le> capacity (snd (capacityInputOnChange parsed s))
   \<and> capacity (onEventStateUpdate newState s) = row_capacity newState
   \<and> (1 \<le> capacity (onEventStateUpdate newState s)) = (1 \<le> row_capacity newState)
   \<and> capacity (applyInitialFetch (Some newState) s) = row_capacity newState"
  by (simp add: capacityInputOnChange_def handleCapacityChange_def onEventStateUpdate_def
      applyInitialFetch_def Let_def split: option.splits)

section \<open>Reset and disconnect\<close>

text \<open>
  Connecting sets the client together with \<open>isConnected\<close>, \<open>disconnect\<close> clears both, the
  \<open>catch\<close> of \<open>connectToSupabase\<close> clears \<open>isConnected\<close> alone, and nothing else writes
  either: in every state of the component, connected implies a client.
\<close>

lemma connection_applyInitialFetch:
  "isConnected (applyInitialFetch stateData s) = isConnected s"
  "supabaseClient (applyInitialFetch stateData s) = supabaseClient s"
  by (simp_all add: applyInitialFetch_def Let_def split: option.splits)

lemma connection_onEventStateUpdate:
  "isConnected (onEventStateUpdate newState s) = isConnected s"
  "supabaseClient (onEventStateUpdate newState s) = supabaseClient s"
  by (simp_all add: onEventStateUpdate_def Let_def split: option.splits)

lemma clientWhenConnected_step:
  "clientWhenConnected s \<Longrightarrow> clientWhenConnected (step e s)"
  by (cases e)
    (simp_all add: clientWhenConnected_def connection_applyInitialFetch
      connection_onEventStateUpdate applyMessageFetch_def onMessageInsert_def
      onPresenceSync_def disconnect_def handleDoorChange_def Let_def capacityInputOnChange_def
      handleCapacityChange_def handleFullReset_def handleRoleSelect_def handleClaimBC_def
      handleRelease_def handleStationClick_def handleSendMessage_def split: option.splits)

lemma clientWhenConnected_runEvents:
  "clientWhenConnected s \<Longrightarrow> clientWhenConnected (runEvents es s)"
  by (induction es arbitrary: s) (simp_all add: clientWhenConnected_step)

lemma clientWhenConnected_initialState: "clientWhenConnected (initialState dev)"
  by (simp add: clientWhenConnected_def initialState_def)

text \<open>
  C5: \<open>handleFullReset\<close> is gated on the confirmation text. With a text other than
  \<open>RESET\<close>, in any state, it issues no effect and returns the state unchanged. In every
  state of the component in which the CONFIRM button is rendered, with the text \<open>RESET\<close>
  it sets \<open>doorCount\<close> to 0, empties the log, and issues the \<open>door_count\<close> update and the
  bulk delete of the messages.
\<close>

theorem full_reset_gated_on_text:
  "(resetInputText s \<noteq> ''RESET'' \<longrightarrow> handleFullReset s = ([], s))
   \<and> (resetButtonShown (runEvents es (initialState dev))
        \<and> resetInputText (runEvents es (initialState dev)) = ''RESET'' \<longrightarrow>
        doorCount (snd (handleFullReset (runEvents es (initialState dev)))) = 0
        \<and> messages (snd (handleFullReset (runEvents es (initialState dev)))) = []
        \<and> fst (handleFullReset (runEvents es (initialState dev)))
            = [UpdateDoorCount 0, DeleteMessagesNeqId (- 1)])"
proof (intro conjI impI)
  assume "resetInputText s \<noteq> ''RESET''"
  then show "handleFullReset s = ([], s)"
    by (simp add: handleFullReset_def)
next
  let ?r = "runEvents es (initialState dev)"
  assume call: "resetButtonShown ?r \<and> resetInputText ?r = ''RESET''"
  have "clientWhenConnected ?r"
    using clientWhenConnected_initialState by (rule clientWhenConnected_runEvents)
  with call obtain c where c: "supabaseClient ?r = Some c"
    by (auto simp: clientWhenConnected_def resetButtonShown_def)
  from call show "doorCount (snd (handleFullReset ?r)) = 0"
    by (simp add: handleFullReset_def)
  from call show "messages (snd (handleFullReset ?r)) = []"
    by (simp add: handleFullReset_def)
  from call c show "fst (handleFullReset ?r) = [UpdateDoorCount 0, DeleteMessagesNeqId (- 1)]"
    by (simp add: handleFullReset_def whenClient_def)
qed

theorem full_reset_gated_on_text_witness:
  "handleFullReset ((initialState ''dev_a'')\<lparr>doorCount := 5, resetInputText := ''RSET''\<rparr>)
     = ([], (initialState ''dev_a'')\<lparr>doorCount := 5, resetInputText := ''RSET''\<rparr>)
   \<and> fst (handleFullReset (runEvents
        [Subscribed (Client ''u'' ''k'') (Channel ''public:room'' ''dev_a''), DoorChange 1,
         MessageInsert \<lparr>msg_id = 7, msg_time = ''2:05 PM'', msg_station = ''MERCH'',
                         msg_text = ''restock''\<rparr>,
         SetShowNetworkModal True, ShowResetView, SetResetInputText ''RESET'']
        (initialState ''dev_a'')))
       = [UpdateDoorCount 0, DeleteMessagesNeqId (- 1)]
   \<and> doorCount (runEvents
        [Subscribed (Client ''u'' ''k'') (Channel ''public:room'' ''dev_a''), DoorChange 1,
         MessageInsert \<lparr>msg_id = 7, msg_time = ''2:05 PM'', msg_station = ''MERCH'',
                         msg_text = ''restock''\<rparr>,
         SetShowNetworkModal True, ShowResetView, SetResetInputText ''RESET'']
        (initialState ''dev_a'')) = 1
   \<and> doorCount (snd (handleFullReset (runEvents
        [Subscribed (Client ''u'' ''k'') (Channel ''public:room'' ''dev_a''), DoorChange 1,
         MessageInsert \<lparr>msg_id = 7, msg_time = ''2:05 PM'', msg_station = ''MERCH'',
                         msg_text = ''restock''\<rparr>,
         SetShowNetworkModal True, ShowResetView, SetResetInputText ''RESET'']
        (initialState ''dev_a'')))) = 0"
proof -
  let ?a = "(initialState ''dev_a'')\<lparr>doorCount := 5, resetInputText := ''RSET''\<rparr>"
  let ?es = "[Subscribed (Client ''u'' ''k'') (Channel ''public:room'' ''dev_a''), DoorChange 1,
         MessageInsert \<lparr>msg_id = 7, msg_time = ''2:05 PM'', msg_station = ''MERCH'',
                         msg_text = ''restock''\<rparr>,
         SetShowNetworkModal True, ShowResetView, SetResetInputText ''RESET'']"
  let ?r = "runEvents ?es (initialState ''dev_a'')"
  have a: "resetInputText ?a \<noteq> ''RESET''" by simp
  have shown: "resetButtonShown ?r"
    by (simp add: resetButtonShown_def initialState_def handleDoorChange_def Let_def
        onMessageInsert_def)
  have typed: "resetInputText ?r = ''RESET''"
    by (simp add: initialState_def handleDoorChange_def Let_def onMessageInsert_def)
  have before: "doorCount ?r = 1"
    by (simp add: initialState_def handleDoorChange_def Let_def onMessageInsert_def)
  from full_reset_gated_on_text [of ?a] a have 1: "handleFullReset ?a = ([], ?a)" by blast
  from full_reset_gated_on_text [of _ ?es "''dev_a''"] shown typed
  have 2: "doorCount (snd (handleFullReset ?r)) = 0
           \<and> fst (handleFullReset ?r) = [UpdateDoorCount 0, DeleteMessagesNeqId (- 1)]"
    by blast
  from 1 2 before show ?thesis by blast
qed

text \<open>
  \<open>disconnect\<close> on a device with capacity 250 and WiFi credentials: all three survive.
\<close>

theorem disconnect_keeps_capacity_wifi_counterexample:
  "capacity (snd (disconnect ((initialState ''dev_a'')
       \<lparr>capacity := 250, wifiSSID := ''Venue'', wifiPass := ''secret''\<rparr>))) = 250
   \<and> capacity (snd (disconnect ((initialState ''dev_a'')
       \<lparr>capacity := 250, wifiSSID := ''Venue'', wifiPass := ''secret''\<rparr>)))
       \<noteq> capacity (initialState ''dev_a'')
   \<and> wifiSSID (snd (disconnect ((initialState ''dev_a'')
       \<lparr>capacity := 250, wifiSSID := ''Venue'', wifiPass := ''secret''\<rparr>))) \<noteq> []
   \<and> wifiPass (snd (disconnect ((initialState ''dev_a'')
       \<lparr>capacity := 250, wifiSSID := ''Venue'', wifiPass := ''secret''\<rparr>))) \<noteq> []"
  by (simp add: disconnect_def initialState_def)

text \<open>
  C9, as the code has it: after \<open>disconnect\<close> the device is not connected, holds no
  client and no channel, \<open>doorCount\<close> is 0 and the log is empty; \<open>capacity\<close>,
  \<open>wifiSSID\<close> and \<open>wifiPass\<close> keep the values they had.
\<close>

theorem disconnect_clears:
  "isConnected (snd (disconnect s)) = False
   \<and> supabaseClient (snd (disconnect s)) = None
   \<and> channel (snd (disconnect s)) = None
   \<and> doorCount (snd (disconnect s)) = 0
   \<and> messages (snd (disconnect s)) = []
   \<and> capacity (snd (disconnect s)) = capacity s
   \<and> wifiSSID (snd (disconnect s)) = wifiSSID s
   \<and> wifiPass (snd (disconnect s)) = wifiPass s"
  by (simp add: disconnect_def)

section \<open>Coordinator detection\<close>

text \<open>
  What the sync handler computes: the flag is set exactly when some record of the
  snapshot has the role string \<open>COORDINATOR\<close> and another device's id.
\<close>

lemma bcFound_inner:
  "foldl (\<lambda>f p. if role p = ''COORDINATOR'' \<and> device_id p \<noteq> self then True else f) found ps
     = (found \<or> (\<exists>p\<in>set ps. role p = ''COORDINATOR'' \<and> device_id p \<noteq> self))"
  by (induction ps arbitrary: found) auto

lemma bcFound_outer:
  "foldl (\<lambda>found presences.
            foldl (\<lambda>f p. if role p = ''COORDINATOR'' \<and> device_id p \<noteq> self then True else f)
              found presences) found0 pss
     = (found0 \<or> (\<exists>ps\<in>set pss. \<exists>p\<in>set ps. role p = ''COORDINATOR'' \<and> device_id p \<noteq> self))"
  by (induction pss arbitrary: found0) (auto simp: bcFound_inner)

lemma bcFound_iff:
  "bcFound self state
     = (\<exists>ps\<in>snd ` set state. \<exists>p\<in>set ps. role p = ''COORDINATOR'' \<and> device_id p \<noteq> self)"
  by (simp add: bcFound_def bcFound_outer)

text \<open>
  C1 at a snapshot the code does not handle as the claim says. Device \<open>dev_b\<close> claims
  the coordinator role: \<open>handleClaimBC\<close> sets its role to \<open>Bout Coordinator\<close>, and the
  presence effect announces that string. Device \<open>dev_a\<close> receives the snapshot with this
  one record, whose role is \<open>Bout Coordinator\<close> and whose device id is not its own, and
  the sync handler, which compares the role with \<open>COORDINATOR\<close>, sets
  \<open>otherCoordinatorOnline\<close> to false.
\<close>

theorem claimed_coordinator_not_seen:
  "operatorName (handleClaimBC (initialState ''dev_b'')) = ''Bout Coordinator''
   \<and> rolePresenceEffect ''t1''
        ((handleClaimBC (initialState ''dev_b''))\<lparr>channel := Some (Channel ''public:room'' ''dev_b'')\<rparr>)
      = [LocalStorageSetItem ''derby_role'' ''Bout Coordinator'',
         Track \<lparr>track_device_id = ''dev_b'', track_role = ''Bout Coordinator'',
                track_online_at = ''t1''\<rparr>]
   \<and> otherCoordinatorOnline
        (onPresenceSync
           [(''dev_b'', [presenceOf ''ref1''
               \<lparr>track_device_id = ''dev_b'', track_role = ''Bout Coordinator'',
                track_online_at = ''t1''\<rparr>])]
           (initialState ''dev_a'')) = False"
  by (simp add: handleClaimBC_def initialState_def rolePresenceEffect_def onPresenceSync_def
      bcFound_def presenceOf_def)

section \<open>The message log\<close>

lemma messages_handleSendMessage:
  "messages (snd (handleSendMessage hours minutes s)) = messages s"
  by (simp add: handleSendMessage_def Let_def)

lemma messages_messageInserts:
  "messages (messageInserts ms s) = messages s @ ms"
  by (induction ms arbitrary: s) (simp_all add: onMessageInsert_def)

text \<open>
  A message is sent and the notification of its insertion is delivered twice, as a feed
  that delivers at least once may: the log holds the message twice.
\<close>

theorem echo_delivered_twice_counterexample:
  "fst (handleSendMessage 14 5
          ((initialState ''dev_a'')\<lparr>operatorName := ''MERCH'', inputText := '' restock '',
             supabaseClient := Some (Client ''u'' ''k'')\<rparr>))
     = [InsertMessages [\<lparr>new_time = ''2:05 PM'', new_station = ''MERCH'', new_text = ''restock''\<rparr>]]
   \<and> echoes \<lparr>new_time = ''2:05 PM'', new_station = ''MERCH'', new_text = ''restock''\<rparr>
        \<lparr>msg_id = 7, msg_time = ''2:05 PM'', msg_station = ''MERCH'', msg_text = ''restock''\<rparr>
   \<and> messages (messageInserts
        [\<lparr>msg_id = 7, msg_time = ''2:05 PM'', msg_station = ''MERCH'', msg_text = ''restock''\<rparr>,
         \<lparr>msg_id = 7, msg_time = ''2:05 PM'', msg_station = ''MERCH'', msg_text = ''restock''\<rparr>]
        (snd (handleSendMessage 14 5
           ((initialState ''dev_a'')\<lparr>operatorName := ''MERCH'', inputText := '' restock '',
              supabaseClient := Some (Client ''u'' ''k'')\<rparr>))))
     = [\<lparr>msg_id = 7, msg_time = ''2:05 PM'', msg_station = ''MERCH'', msg_text = ''restock''\<rparr>,
        \<lparr>msg_id = 7, msg_time = ''2:05 PM'', msg_station = ''MERCH'', msg_text = ''restock''\<rparr>]
   \<and> count_list (messages (messageInserts
        [\<lparr>msg_id = 7, msg_time = ''2:05 PM'', msg_station = ''MERCH'', msg_text = ''restock''\<rparr>,
         \<lparr>msg_id = 7, msg_time = ''2:05 PM'', msg_station = ''MERCH'', msg_text = ''restock''\<rparr>]
        (snd (handleSendMessage 14 5
           ((initialState ''dev_a'')\<lparr>operatorName := ''MERCH'', inputText := '' restock '',
              supabaseClient := Some (Client ''u'' ''k'')\<rparr>)))))
        \<lparr>msg_id = 7, msg_time = ''2:05 PM'', msg_station = ''MERCH'', msg_text = ''restock''\<rparr>
     \<noteq> 1"
proof -
  have t: "timeStr 14 5 = ''2:05 PM''" by code_simp
  have tr: "trim '' restock '' = ''restock''" by code_simp
  show ?thesis
    by (simp add: handleSendMessage_def Let_def t tr whenClient_def sender_def initialState_def
        echoes_def onMessageInsert_def)
qed

lemma count_id_messageInserts:
  "length (filter (\<lambda>x. msg_id x = i) (messages (messageInserts ns s)))
     = length (filter (\<lambda>x. msg_id x = i) (messages s)) + length (filter (\<lambda>x. msg_id x = i) ns)"
  by (simp add: messages_messageInserts)

lemma effects_handleSendMessage:
  "fst (handleSendMessage hours minutes s) = []
   \<or> fst (handleSendMessage hours minutes s)
        = [InsertMessages [\<lparr>new_time = timeStr hours minutes, new_station = sender s,
                             new_text = trim (inputText s)\<rparr>]]"
  by (simp add: handleSendMessage_def Let_def whenClient_def split: option.splits)

text \<open>
  C4, as the code has it: \<open>handleSendMessage\<close> does not touch the log, its one effect is
  the backend insert of the message; only the \<open>INSERT\<close> handler appends, one entry for
  every notification delivered and without looking at ids. So after a run of
  notifications an id occurs in the log as often as it did before plus as often as it was
  delivered: the echo of a sent message, its id not yet in the log, occurs once when it
  is delivered once and twice when it is delivered twice.
\<close>

theorem sent_message_logged_per_delivery:
  "messages (snd (handleSendMessage hours minutes s)) = messages s
   \<and> (fst (handleSendMessage hours minutes s) = []
       \<or> fst (handleSendMessage hours minutes s)
            = [InsertMessages [\<lparr>new_time = timeStr hours minutes, new_station = sender s,
                                 new_text = trim (inputText s)\<rparr>]])
   \<and> messages (messageInserts ns (snd (handleSendMessage hours minutes s))) = messages s @ ns
   \<and> length (filter (\<lambda>x. msg_id x = i)
         (messages (messageInserts ns (snd (handleSendMessage hours minutes s)))))
       = length (filter (\<lambda>x. msg_id x = i) (messages s))
         + length (filter (\<lambda>x. msg_id x = i) ns)
   \<and> (msg_id m \<notin> msg_id ` set (messages s @ others) \<longrightarrow>
        length (filter (\<lambda>x. msg_id x = msg_id m)
          (messages (messageInserts (others @ [m]) (snd (handleSendMessage hours minutes s))))) = 1
        \<and> length (filter (\<lambda>x. msg_id x = msg_id m)
          (messages (messageInserts (others @ [m, m])
             (snd (handleSendMessage hours minutes s))))) = 2)"
proof (intro conjI impI)
  let ?s1 = "snd (handleSendMessage hours minutes s)"
  show keep: "messages ?s1 = messages s"
    by (rule messages_handleSendMessage)
  show "fst (handleSendMessage hours minutes s) = []
        \<or> fst (handleSendMessage hours minutes s)
             = [InsertMessages [\<lparr>new_time = timeStr hours minutes, new_station = sender s,
                                  new_text = trim (inputText s)\<rparr>]]"
    by (rule effects_handleSendMessage)
  show "messages (messageInserts ns ?s1) = messages s @ ns"
    by (simp add: messages_messageInserts keep)
  show "length (filter (\<lambda>x. msg_id x = i) (messages (messageInserts ns ?s1)))
          = length (filter (\<lambda>x. msg_id x = i) (messages s))
            + length (filter (\<lambda>x. msg_id x = i) ns)"
    by (simp add: count_id_messageInserts keep)
  assume fresh: "msg_id m \<notin> msg_id ` set (messages s @ others)"
  have none: "filter (\<lambda>x. msg_id x = msg_id m) (messages s @ others) = []"
    unfolding filter_empty_conv
  proof
    fix x assume "x \<in> set (messages s @ others)"
    then have "msg_id x \<in> msg_id ` set (messages s @ others)" by (rule imageI)
    with fresh show "\<not> msg_id x = msg_id m" by metis
  qed
  then show "length (filter (\<lambda>x. msg_id x = msg_id m)
               (messages (messageInserts (others @ [m]) ?s1))) = 1"
    by (simp add: messages_messageInserts keep)
  from none show "length (filter (\<lambda>x. msg_id x = msg_id m)
               (messages (messageInserts (others @ [m, m]) ?s1))) = 2"
    by (simp add: messages_messageInserts keep)
qed

theorem sent_message_logged_per_delivery_witness:
  "length (filter (\<lambda>x. msg_id x = 7)
     (messages (messageInserts
        [\<lparr>msg_id = 5, msg_time = ''2:04 PM'', msg_station = ''TICKETS'', msg_text = ''line''\<rparr>,
         \<lparr>msg_id = 7, msg_time = ''2:05 PM'', msg_station = ''MERCH'', msg_text = ''restock''\<rparr>]
        (snd (handleSendMessage 14 5
           ((initialState ''dev_a'')\<lparr>operatorName := ''MERCH'', inputText := '' restock '',
              messages := [\<lparr>msg_id = 3, msg_time = ''1:58 PM'', msg_station = ''BEER'',
                             msg_text = ''keg''\<rparr>],
              supabaseClient := Some (Client ''u'' ''k'')\<rparr>)))))) = 1"
proof -
  let ?m3 = "\<lparr>msg_id = 3, msg_time = ''1:58 PM'', msg_station = ''BEER'', msg_text = ''keg''\<rparr>"
  let ?m5 = "\<lparr>msg_id = 5, msg_time = ''2:04 PM'', msg_station = ''TICKETS'', msg_text = ''line''\<rparr>"
  let ?m = "\<lparr>msg_id = 7, msg_time = ''2:05 PM'', msg_station = ''MERCH'', msg_text = ''restock''\<rparr>"
  let ?s = "(initialState ''dev_a'')\<lparr>operatorName := ''MERCH'', inputText := '' restock '',
             messages := [?m3], supabaseClient := Some (Client ''u'' ''k'')\<rparr>"
  have fresh: "msg_id ?m \<notin> msg_id ` set (messages ?s @ [?m5])"
    by simp
  from sent_message_logged_per_delivery [of 14 5 ?s _ _ ?m "[?m5]"] fresh
  show ?thesis by simp
qed

section \<open>Occupancy\<close>

text \<open>The error of a quotient rounded, multiplied by 100 and rounded again.\<close>

lemma div_pow53_le: "0 \<le> a \<Longrightarrow> a / 2 ^ 53 \<le> (a::real)"
  by (simp add: field_simps)

lemma chain_error:
  fixes x :: real
  assumes "0 \<le> x"
  shows "\<bar>round53 (round53 x * 100) - 100 * x\<bar> \<le> 300 * (x / 2 ^ 53)"
proof -
  define y where "y = round53 x"
  define z where "z = round53 (y * 100)"
  define ex where "ex = x / 2 ^ 53"
  have ex: "0 \<le> ex" "ex \<le> x"
    using assms div_pow53_le [of x] by (simp_all add: ex_def)
  have y: "\<bar>y - x\<bar> \<le> ex"
    using round53_error [of x] assms by (simp add: y_def ex_def)
  with assms have yb: "\<bar>y\<bar> \<le> x + ex" by linarith
  have "\<bar>z - y * 100\<bar> \<le> \<bar>y * 100\<bar> / 2 ^ 53"
    unfolding z_def by (rule round53_error)
  also have "\<dots> = 100 * (\<bar>y\<bar> / 2 ^ 53)" by (simp add: abs_mult)
  also have "\<bar>y\<bar> / 2 ^ 53 \<le> (x + ex) / 2 ^ 53"
    using yb by (rule divide_right_mono) simp
  also have "(x + ex) / 2 ^ 53 = ex + ex / 2 ^ 53"
    by (simp add: ex_def add_divide_distrib)
  also have "ex / 2 ^ 53 \<le> ex"
    using ex(1) by (rule div_pow53_le)
  finally have z: "\<bar>z - y * 100\<bar> \<le> 100 * (ex + ex)" by simp
  from z have "z - y * 100 \<le> 200 * ex" "- (200 * ex) \<le> z - y * 100"
    by (simp_all add: abs_le_iff)
  moreover from y have "y - x \<le> ex" "- ex \<le> y - x"
    by (simp_all add: abs_le_iff)
  ultimately have "z - 100 * x \<le> 300 * ex" "- (300 * ex) \<le> z - 100 * x"
    by linarith+
  then have "\<bar>z - 100 * x\<bar> \<le> 300 * ex"
    by (simp add: abs_le_iff)
  then show ?thesis by (simp add: z_def y_def ex_def)
qed

lemma div_pow53_le_milli: "0 \<le> a \<Longrightarrow> a / 2 ^ 53 \<le> (a::real) / 1000"
  by (simp add: field_simps)

lemma occupancy_analysis:
  fixes dc c :: int
  assumes dc: "0 \<le> dc" and c1: "1 \<le> c" and cb: "c < 2 ^ 43"
  defines "v \<equiv> 100 * real_of_int dc / real_of_int c"
  defines "z \<equiv> round53 (round53 (real_of_int dc / real_of_int c) * 100)"
  defines "k \<equiv> \<lfloor>v + 1 / 2\<rfloor>"
  shows "min 100 (mathRound z) = min 100 k
         \<or> (v + 1 / 2 = of_int k \<and> min 100 (mathRound z) = min 100 k - 1)"
proof -
  define rc where "rc = real_of_int c"
  from c1 have "real_of_int 1 \<le> real_of_int c" by (simp only: of_int_le_iff)
  moreover from cb have "real_of_int c < real_of_int (2 ^ 43)" by (simp only: of_int_less_iff)
  ultimately have rc: "1 \<le> rc" "rc < 2 ^ 43"
    by (simp_all add: rc_def)
  have x0: "0 \<le> real_of_int dc / rc"
    using dc rc by simp
  have v0: "0 \<le> v"
    using dc c1 by (simp add: v_def)
  have vx: "v = 100 * (real_of_int dc / rc)"
    by (simp add: v_def rc_def)
  define w where "w = v / 2 ^ 53"
  have err: "\<bar>z - v\<bar> \<le> 3 * w"
    using chain_error [OF x0] by (simp add: z_def vx w_def rc_def)
  then have zlo: "v - 3 * w \<le> z" and zhi: "z \<le> v + 3 * w"
    by (simp_all add: abs_le_iff)
  have w0: "0 \<le> w"
    using v0 by (simp add: w_def)
  have wm: "w \<le> v / 1000"
    unfolding w_def using v0 by (rule div_pow53_le_milli)
  have kf: "of_int k \<le> v + 1 / 2" "v + 1 / 2 < of_int k + 1"
    unfolding k_def by linarith+
  show ?thesis
  proof (cases "101 \<le> v")
    case True
    with zlo wm have "real_of_int 101 \<le> z + 1 / 2" by simp
    then have "101 \<le> mathRound z"
      unfolding mathRound_def by (simp only: le_floor_iff)
    moreover from True have "real_of_int 101 \<le> v + 1 / 2" by simp
    then have "101 \<le> k"
      unfolding k_def by (simp only: le_floor_iff)
    ultimately show ?thesis by simp
  next
    case False
    define dl :: real where "dl = 303 / 2 ^ 53"
    have "w \<le> 101 / 2 ^ 53"
      unfolding w_def using False by (intro divide_right_mono) simp_all
    then have wd: "3 * w \<le> dl" by (simp add: dl_def)
    have dl: "0 < dl" "dl < 1 / 2" by (simp_all add: dl_def)
    have cd: "2 * rc * dl < 1"
    proof -
      have "2 * rc * dl < 2 * 2 ^ 43 * dl"
        using rc dl by simp
      also have "\<dots> < 1" by (simp add: dl_def)
      finally show ?thesis .
    qed
    define f where "f = v + 1 / 2 - of_int k"
    have f: "0 \<le> f" "f < 1"
      using kf by (simp_all add: f_def)
    define t where "t = 200 * dc - (2 * k - 1) * c"
    have vrc: "v * rc = 100 * real_of_int dc"
      using rc by (simp add: vx)
    have tf: "real_of_int t = 2 * rc * f"
    proof -
      have "2 * rc * f = 2 * (v * rc) + rc - 2 * of_int k * rc"
        by (simp add: f_def algebra_simps)
      also have "\<dots> = 200 * real_of_int dc - (2 * real_of_int k - 1) * rc"
        unfolding vrc by (simp add: algebra_simps)
      also have "\<dots> = real_of_int t"
        by (simp add: t_def rc_def)
      finally show ?thesis by simp
    qed
    have zf: "of_int k + f - dl \<le> z + 1 / 2" "z + 1 / 2 \<le> of_int k + f + dl"
      using zlo zhi wd by (simp_all add: f_def)
    have k101: "k \<le> 101"
    proof -
      from kf False have "real_of_int k < real_of_int 102" by simp
      then have "k < 102" by (simp only: of_int_less_iff)
      then show ?thesis by simp
    qed
    show ?thesis
    proof (cases "t = 0")
      case True
      with tf rc have f0: "f = 0" by simp
      then have half: "v + 1 / 2 = of_int k" by (simp add: f_def)
      show ?thesis
      proof (cases "of_int k \<le> z + 1 / 2")
        case True
        moreover from zf f0 dl have "z + 1 / 2 < of_int k + 1" by simp
        ultimately have "mathRound z = k"
          unfolding mathRound_def by (intro floor_unique)
        then show ?thesis by simp
      next
        case False
        moreover from zf f0 dl have "of_int (k - 1) \<le> z + 1 / 2" by simp
        ultimately have "mathRound z = k - 1"
          unfolding mathRound_def by (intro floor_unique) simp_all
        with half k101 show ?thesis by (auto simp: min_def)
      qed
    next
      case False
      have t0: "0 \<le> real_of_int t"
        unfolding tf using rc f by simp
      then have "0 \<le> t" by (simp only: of_int_0_le_iff)
      with False have "1 \<le> t" by simp
      then have t1: "1 \<le> real_of_int t" by simp
      have "real_of_int t < real_of_int (2 * c)"
        unfolding tf using rc f by (simp add: rc_def)
      then have "t < 2 * c" by (simp only: of_int_less_iff)
      then have "t \<le> 2 * c - 1" by simp
      then have "real_of_int t \<le> real_of_int (2 * c - 1)" by (simp only: of_int_le_iff)
      then have t2: "real_of_int t \<le> 2 * rc - 1" by (simp add: rc_def)
      have pos: "0 < 2 * rc" using rc by simp
      have "2 * rc * dl < 2 * rc * f"
        using cd t1 tf by linarith
      then have lo: "dl < f"
        using pos by (simp only: mult_less_cancel_left_pos)
      have "2 * rc * dl < 2 * rc * (1 - f)"
        using cd t2 tf by (simp add: algebra_simps)
      then have hi: "dl < 1 - f"
        using pos by (simp only: mult_less_cancel_left_pos)
      from zf lo have "of_int k \<le> z + 1 / 2" by linarith
      moreover from zf hi have "z + 1 / 2 < of_int k + 1" by linarith
      ultimately have "mathRound z = k"
        unfolding mathRound_def by (intro floor_unique)
      then show ?thesis by simp
    qed
  qed
qed

lemma exponent_23_40: "exponent (23 / 40) = - 1"
  by (rule exponent_unique) (simp_all add: power_int_minus_divide)

lemma round53_23_40: "round53 (23 / 40) = 2589569785738035 / 4503599627370496"
  by (simp add: round53_def exponent_23_40 Let_def roundTiesToEven_def power_int_minus_divide)

lemma exponent_prod: "exponent (64739244643450875 / 1125899906842624) = 5"
  by (rule exponent_unique) (simp_all add: power_int_minus_divide)

lemma round53_prod:
  "round53 (64739244643450875 / 1125899906842624) = 8092405580431359 / 140737488355328"
  by (simp add: round53_def exponent_prod Let_def roundTiesToEven_def power_int_minus_divide)

lemma round53_nonpos:
  assumes "x \<le> 0"
  shows "round53 x \<le> 0"
proof -
  have "\<bar>round53 x - x\<bar> \<le> \<bar>x\<bar> / 2 ^ 53"
    by (rule round53_error)
  then have "round53 x - x \<le> \<bar>x\<bar> / 2 ^ 53"
    by (rule abs_le_D1)
  moreover have "\<bar>x\<bar> / 2 ^ 53 \<le> \<bar>x\<bar>"
    by (rule div_pow53_le) simp
  ultimately show ?thesis using assms by linarith
qed

lemma orOne_nonzero: "orOne n \<noteq> 0"
  by (simp add: orOne_def)

lemma occupancy_value:
  "occupancy s
     = Some (min 100 (mathRound (round53 (round53
         (real_of_int (doorCount s) / real_of_int (orOne (capacity s))) * 100))))"
  by (simp add: occupancy_def jsDivide_def jsTimes_def orOne_nonzero)

text \<open>
  \<open>doorCount = 23\<close>, \<open>capacity = 40\<close>: the quotient \<open>23 / 40\<close> rounds to a double just
  below 0.575, its product with 100 to \<open>57.49999999999999\<close>, and \<open>Math.round\<close> gives 57.
  The exact value \<open>100 * 23 / 40\<close> is 57.5, which rounds to 58.
\<close>

theorem occupancy_halfway_counterexample:
  "occupancy ((initialState ''dev_a'')\<lparr>doorCount := 23, capacity := 40\<rparr>) = Some 57
   \<and> occupancyExact 23 40 = 58"
  by (simp add: occupancy_value orOne_def round53_23_40 round53_prod mathRound_def
      occupancyExact_def)

text \<open>
  C10, as the code has it. The occupancy is defined for every state (\<open>capacity || 1\<close> is
  never 0, so no division by zero occurs) and never exceeds 100. For
  \<open>0 \<le> doorCount < 2^53\<close> and \<open>0 \<le> capacity < 2^43\<close> it equals \<open>min(100, round(100 * doorCount / max(1, capacity)))\<close>,
  except that where \<open>100 * doorCount / max(1, capacity)\<close> lies exactly halfway between two
  integers the double-precision product may fall below the half, and the occupancy is
  then one less. A negative capacity is not replaced: it is the divisor, and for
  \<open>doorCount \<ge> 0\<close> the occupancy is then at most 0.
\<close>

theorem occupancy_bounded:
  "(\<exists>n. occupancy s = Some n \<and> n \<le> 100)
   \<and> (0 \<le> doorCount s \<and> doorCount s < 2 ^ 53 \<and> 0 \<le> capacity s \<and> capacity s < 2 ^ 43 \<longrightarrow>
        occupancy s = Some (occupancyExact (doorCount s) (capacity s))
        \<or> (halfway (doorCount s) (capacity s)
            \<and> occupancy s = Some (occupancyExact (doorCount s) (capacity s) - 1)))
   \<and> (0 \<le> doorCount s \<and> capacity s < 0 \<longrightarrow> (\<exists>n. occupancy s = Some n \<and> n \<le> 0))"
proof (intro conjI impI)
  show "\<exists>n. occupancy s = Some n \<and> n \<le> 100"
    by (simp add: occupancy_value)
next
  assume pre: "0 \<le> doorCount s \<and> doorCount s < 2 ^ 53 \<and> 0 \<le> capacity s \<and> capacity s < 2 ^ 43"
  let ?c = "max 1 (capacity s)"
  from pre have c: "orOne (capacity s) = ?c" "1 \<le> ?c" "?c < 2 ^ 43"
    by (simp_all add: orOne_def)
  from pre have dc: "0 \<le> doorCount s" by simp
  from occupancy_analysis [OF dc c(2) c(3)]
  show "occupancy s = Some (occupancyExact (doorCount s) (capacity s))
        \<or> (halfway (doorCount s) (capacity s)
            \<and> occupancy s = Some (occupancyExact (doorCount s) (capacity s) - 1))"
    unfolding occupancy_value c(1) occupancyExact_def halfway_def Let_def
    by (simp only: option.inject) metis
next
  assume pre: "0 \<le> doorCount s \<and> capacity s < 0"
  then have "real_of_int (doorCount s) / real_of_int (orOne (capacity s)) \<le> 0"
    by (simp add: orOne_def divide_nonneg_neg)
  then have "round53 (real_of_int (doorCount s) / real_of_int (orOne (capacity s))) * 100 \<le> 0"
    using round53_nonpos by (simp add: mult_le_0_iff)
  then have "round53 (round53 (real_of_int (doorCount s) / real_of_int (orOne (capacity s))) * 100)
               \<le> 0"
    by (rule round53_nonpos)
  then have "mathRound (round53 (round53
               (real_of_int (doorCount s) / real_of_int (orOne (capacity s))) * 100)) \<le> 0"
    unfolding mathRound_def by (simp add: floor_le_iff)
  then show "\<exists>n. occupancy s = Some n \<and> n \<le> 0"
    by (simp add: occupancy_value)
qed

theorem occupancy_bounded_witness:
  "occupancy ((initialState ''dev_a'')\<lparr>doorCount := 42, capacity := 300\<rparr>) = Some 14
   \<and> (\<exists>n. occupancy ((initialState ''dev_a'')\<lparr>doorCount := 1, capacity := - 5\<rparr>) = Some n
          \<and> n \<le> 0)"
proof -
  let ?a = "(initialState ''dev_a'')\<lparr>doorCount := 42, capacity := 300\<rparr>"
  let ?b = "(initialState ''dev_a'')\<lparr>doorCount := 1, capacity := - 5\<rparr>"
  have a: "0 \<le> doorCount ?a \<and> doorCount ?a < 2 ^ 53 \<and> 0 \<le> capacity ?a \<and> capacity ?a < 2 ^ 43"
    by simp
  have nh: "\<not> halfway (doorCount ?a) (capacity ?a)"
    by (simp add: halfway_def del: of_int_floor_cancel)
  have ex: "occupancyExact (doorCount ?a) (capacity ?a) = 14"
    by (simp add: occupancyExact_def)
  have b: "0 \<le> doorCount ?b \<and> capacity ?b < 0" by simp
  from occupancy_bounded [of ?a] a nh ex have 1: "occupancy ?a = Some 14" by metis
  from occupancy_bounded [of ?b] b
  have 2: "\<exists>n. occupancy ?b = Some n \<and> n \<le> 0" by blast
  from 1 2 show ?thesis by blast
qed

end
